theory Spec2Isabelle
  imports Complex_Main "HOL-Library.Word" "HOL-Library.Sublist" "HOL-Library.AList"
begin

section \<open>JavaScript strings\<close>

text \<open>
  A JavaScript string is a sequence of 16-bit UTF-16 code units. \<open>ascii\<close> embeds an
  ASCII literal; characters outside ASCII are written as their code units.
\<close>

type_synonym jsstring = "16 word list"

definition ascii :: "string \<Rightarrow> jsstring" where
  "ascii s = map of_char s"

text \<open>
  \<^verbatim>\<open>String.prototype.indexOf\<close> and \<^verbatim>\<open>lastIndexOf\<close> for a one-unit search string:
  the index of the first (last) occurrence, or \<open>-1\<close>.
\<close>

fun indexOf :: "jsstring \<Rightarrow> 16 word \<Rightarrow> int" where
  "indexOf [] c = -1"
| "indexOf (x # xs) c =
     (if x = c then 0
      else (let r = indexOf xs c in if r = -1 then -1 else r + 1))"

definition lastIndexOf :: "jsstring \<Rightarrow> 16 word \<Rightarrow> int" where
  "lastIndexOf s c =
     (let r = indexOf (rev s) c
      in if r = -1 then -1 else int (length s) - 1 - r)"

text \<open>
  \<^verbatim>\<open>String.prototype.substring(start, end)\<close>: both arguments are clamped to
  \<open>[0, length]\<close> and swapped when \<open>start > end\<close>.
\<close>

definition substring :: "jsstring \<Rightarrow> int \<Rightarrow> int \<Rightarrow> jsstring" where
  "substring s start end' =
     (let len = int (length s);
          finalStart = min (max start 0) len;
          finalEnd = min (max end' 0) len;
          from = min finalStart finalEnd;
          to = max finalStart finalEnd
      in take (nat (to - from)) (drop (nat from) s))"

text \<open>
  \<^verbatim>\<open>s.replace(/pat/g, rep)\<close> for a pattern that is a literal, non-empty string:
  every match, found left to right without overlap, is replaced.
\<close>

function replaceGlobal :: "jsstring \<Rightarrow> jsstring \<Rightarrow> jsstring \<Rightarrow> jsstring" where
  "replaceGlobal pat rep [] = []"
| "replaceGlobal pat rep (x # xs) =
     (if pat \<noteq> [] \<and> prefix pat (x # xs)
      then rep @ replaceGlobal pat rep (drop (length pat) (x # xs))
      else x # replaceGlobal pat rep xs)"
  by pat_completeness auto
termination
  by (relation "measure (\<lambda>(pat, rep, s). length s)") (auto simp: neq_Nil_conv)

text \<open>
  The white space of \<^verbatim>\<open>String.prototype.trim\<close> and of the regular expression class
  \<^verbatim>\<open>\s\<close>: ECMAScript's WhiteSpace and LineTerminator code points.
\<close>

definition isWhiteSpace :: "16 word \<Rightarrow> bool" where
  "isWhiteSpace c =
     (c \<in> set [0x0009, 0x000A, 0x000B, 0x000C, 0x000D, 0x0020, 0x00A0, 0x1680,
               0x2028, 0x2029, 0x202F, 0x205F, 0x3000, 0xFEFF]
      \<or> (0x2000 \<le> c \<and> c \<le> 0x200A))"

definition trim :: "jsstring \<Rightarrow> jsstring" where
  "trim s = rev (dropWhile isWhiteSpace (rev (dropWhile isWhiteSpace s)))"

text \<open>
  \<^verbatim>\<open>s.replace(/\s+/g, '_')\<close>: the regular expression matches greedily, so each match
  is a maximal run of white space.
\<close>

function replaceWhiteSpaceRuns :: "jsstring \<Rightarrow> jsstring" where
  "replaceWhiteSpaceRuns [] = []"
| "replaceWhiteSpaceRuns (x # xs) =
     (if isWhiteSpace x
      then ascii ''_'' @ replaceWhiteSpaceRuns (dropWhile isWhiteSpace xs)
      else x # replaceWhiteSpaceRuns xs)"
  by pat_completeness auto
termination
  by (relation "measure length") (auto simp: less_Suc_eq_le length_dropWhile_le)

text \<open>Whether a literal pattern occurs in a string, and how often (overlaps counted).\<close>

fun occursIn :: "jsstring \<Rightarrow> jsstring \<Rightarrow> bool" where
  "occursIn pat [] = (pat = [])"
| "occursIn pat (x # xs) = (prefix pat (x # xs) \<or> occursIn pat xs)"

fun occurrences :: "jsstring \<Rightarrow> jsstring \<Rightarrow> nat" where
  "occurrences pat [] = (if pat = [] then 1 else 0)"
| "occurrences pat (x # xs) =
     (if prefix pat (x # xs) then 1 else 0) + occurrences pat xs"

section \<open>JavaScript values, thrown values and effects\<close>

text \<open>
  The values \<^verbatim>\<open>JSON.parse\<close> can return. Numbers are IEEE doubles whose arithmetic no
  property here depends on; they stay abstract. An array is an object too and can carry
  named properties beside its elements. Properties are kept in insertion order.
\<close>

typedecl jsnumber

datatype jsvalue =
    JNull
  | JBool bool
  | JNumber jsnumber
  | JString jsstring
  | JArray "jsvalue list" "(jsstring \<times> jsvalue) list"
  | JObject "(jsstring \<times> jsvalue) list"

text \<open>
  What a \<^verbatim>\<open>catch\<close> clause can receive: an \<^verbatim>\<open>Error\<close> object with its message, or a
  value that is no \<^verbatim>\<open>Error\<close>.
\<close>

datatype thrown = ErrorObject (message: jsstring) | NotAnError

text \<open>Reading a named (non-index) property: \<open>None\<close> is \<^verbatim>\<open>undefined\<close>.\<close>

fun getProperty :: "jsvalue \<Rightarrow> jsstring \<Rightarrow> jsvalue option" where
  "getProperty (JObject kvs) k = map_of kvs k"
| "getProperty (JArray xs ps) k = map_of ps k"
| "getProperty v k = None"

section \<open>The generative API as the program sees it\<close>

text \<open>
  The request of \<^verbatim>\<open>ai.models.generateContent\<close> and the parts of its response the
  program reads. Every field reached through \<^verbatim>\<open>?.\<close> may be absent.
\<close>

datatype tool = GoogleSearch

record request =
  req_model :: jsstring
  req_contents :: jsstring
  req_tools :: "tool list"
  req_temperature :: real

record webSource =
  web_uri :: "jsstring option"

record groundingChunk =
  chunk_web :: "webSource option"

record groundingMetadata =
  gm_groundingChunks :: "groundingChunk list option"

record candidate =
  cand_groundingMetadata :: "groundingMetadata option"

record response =
  resp_text :: "jsstring option"
  resp_candidates :: "candidate list option"

text \<open>
  What the program calls and does not define: the API call, which resolves with a
  response or rejects; \<^verbatim>\<open>JSON.parse\<close>, which returns a value or throws; and the
  \<^verbatim>\<open>TypeError\<close> the engine throws for an operation a value does not support:
  assigning a property on \<^verbatim>\<open>null\<close> or on a primitive in strict-mode code (an ES
  module is strict), or calling a method the value does not have.
\<close>

record platform =
  generateContent :: "request \<Rightarrow> thrown + response"
  jsonParse :: "jsstring \<Rightarrow> thrown + jsvalue"
  typeError :: "jsvalue \<Rightarrow> thrown"

text \<open>The effects a caller cannot see in the returned value.\<close>

datatype event = NetworkCall request | ConsoleError thrown

section \<open>services/geminiService.ts\<close>

subsection \<open>The prompt\<close>

text \<open>
  The template literal of \<^verbatim>\<open>prompt\<close>, cut at its two placeholders
  \<^verbatim>\<open>${title}\<close> and \<^verbatim>\<open>${author}\<close>.
\<close>

definition promptHead_0 :: jsstring where
  "promptHead_0 =
     ascii ''\<newline>'' @
     ascii ''  Act as a world-class literary critic and expert analyst. I need a deep, high-level analysis of the book \"''"

definition promptHead :: jsstring where
  "promptHead = promptHead_0"

definition promptMid_0 :: jsstring where
  "promptMid_0 =
     ascii ''\" by \"''"

definition promptMid :: jsstring where
  "promptMid = promptMid_0"

definition promptTail_0 :: jsstring where
  "promptTail_0 =
     ascii ''\", suitable for a professional lecture or slide deck.\<newline>'' @
     ascii ''  \<newline>'' @
     ascii ''  OBJECTIVE:\<newline>'' @
     ascii ''  Do NOT provide a generic, surface-level summary. Your output must match the depth of a university-level study guide. \<newline>'' @
     ascii ''  You must identify the author's specific coined terms, their central philosophical or narrative thesis, and the structural evolution of their argument.\<newline>'' @
     ascii ''\<newline>'' @
     ascii ''  TOOLS:\<newline>'' @
     ascii ''  Use Google Search to find high-quality critiques, academic analyses, and the specific vocabulary used by the author.\<newline>'' @
     ascii ''\<newline>'' @
     ascii ''  JSON STRUCTURE & CONTENT REQUIREMENTS:\<newline>'' @
     ascii ''  1. \"summary\" (THE CENTRAL THESIS):\<newline>'' @
     ascii ''     - For Non-Fiction: What is the core paradigm shift or theory proposed? (e.g., \"From discipline to flexibility,\" \"The end of history\").\<newline>''"

definition promptTail_1 :: jsstring where
  "promptTail_1 =
     ascii ''     - For Fiction: What is the central thematic conflict or philosophical question?\<newline>'' @
     ascii ''     - Length: A substantial, analytical paragraph (approx 130-160 words).\<newline>'' @
     ascii ''  \<newline>'' @
     ascii ''  2. \"keyConcepts\" (DISTINCTIVE TERMINOLOGY):\<newline>'' @
     ascii ''     - Identify 4 specific concepts, archetypes, or terms COINED or heavily used by the author (e.g., \"The Third Woman,\" \"Antifragility,\" \"Doublethink,\" \"Liquid Modernity\").\<newline>'' @
     ascii ''     - Avoid generic words like \"Love\" or \"War\" unless defined in a unique way.\<newline>'' @
     ascii ''     - Definition: Explain the specific nuance of the term in the context of the book.\<newline>'' @
     ascii ''\<newline>'' @
     ascii ''  3. \"plotArc\" (STRUCTURAL EVOLUTION):\<newline>'' @
     ascii ''     - For Non-Fiction: Track the logical progression of the argument (Premise -> Evidence -> Counter-point -> Conclusion).\<newline>'' @
     ascii ''     - For Fiction: Track the narrative arc.\<newline>'' @
     ascii ''  \<newline>''"

definition promptTail_2 :: jsstring where
  "promptTail_2 =
     ascii ''  4. \"takeaways\" (CRITICAL CONCLUSION):\<newline>'' @
     ascii ''     - What is the final diagnosis? Is it optimistic, pessimistic, or neutral?\<newline>'' @
     ascii ''     - What is the \"Call to Action\" or the \"Map\" the author provides?\<newline>'' @
     ascii ''\<newline>'' @
     ascii ''  OUTPUT FORMAT:\<newline>'' @
     ascii ''  Return ONLY a valid JSON object with this exact structure:\<newline>'' @
     ascii ''  {\<newline>'' @
     ascii ''    \"title\": \"Exact Book Title\",\<newline>'' @
     ascii ''    \"author\": \"Author Name\",\<newline>'' @
     ascii ''    \"publicationYear\": \"YYYY\",\<newline>'' @
     ascii ''    \"genre\": \"Specific Genre (e.g., 'Sociological Essay', 'Dystopian Fiction')\",\<newline>'' @
     ascii ''    \"tagline\": \"A sophisticated, intellectual hook (5-10 words)\",\<newline>''"

definition promptTail_3 :: jsstring where
  "promptTail_3 =
     ascii ''    \"summary\": \"The deep analysis/central thesis paragraph.\",\<newline>'' @
     ascii ''    \"targetAudience\": \"Specific psychographic (e.g. 'Post-structuralists', 'Entrepreneurs', 'Historians')\",\<newline>'' @
     ascii ''    \"characters\": [\<newline>'' @
     ascii ''      { \"name\": \"Name/Archetype\", \"role\": \"Role\", \"description\": \"Analysis of their function\", \"icon\": \"'' @
     [0xD83D, 0xDC64] @
     ascii ''\" }\<newline>'' @
     ascii ''    ],\<newline>'' @
     ascii ''    \"keyConcepts\": [\<newline>'' @
     ascii ''      { \"term\": \"Specific Term 1\", \"definition\": \"Deep definition...\", \"icon\": \"'' @
     [0xD83D, 0xDCA1] @
     ascii ''\" },\<newline>'' @
     ascii ''      { \"term\": \"Specific Term 2\", \"definition\": \"Deep definition...\", \"icon\": \"''"

definition promptTail_4 :: jsstring where
  "promptTail_4 =
     [0x26A1] @
     ascii ''\" },\<newline>'' @
     ascii ''      { \"term\": \"Specific Term 3\", \"definition\": \"Deep definition...\", \"icon\": \"'' @
     [0xD83E, 0xDDE0] @
     ascii ''\" },\<newline>'' @
     ascii ''      { \"term\": \"Specific Term 4\", \"definition\": \"Deep definition...\", \"icon\": \"'' @
     [0xD83D, 0xDC41, 0xFE0F] @
     ascii ''\" }\<newline>'' @
     ascii ''    ],\<newline>'' @
     ascii ''    \"plotArc\": [\<newline>'' @
     ascii ''      { \"stage\": \"Foundation/Beginning\", \"description\": \"The starting premise or situation.\" },\<newline>'' @
     ascii ''      { \"stage\": \"Development/Inciting\", \"description\": \"The complication or expansion of the argument.\" },\<newline>''"

definition promptTail_5 :: jsstring where
  "promptTail_5 =
     ascii ''      { \"stage\": \"Climax/Crux\", \"description\": \"The peak of the argument or conflict.\" },\<newline>'' @
     ascii ''      { \"stage\": \"Resolution/Synthesis\", \"description\": \"The final synthesis or conclusion.\" }\<newline>'' @
     ascii ''    ],\<newline>'' @
     ascii ''    \"themes\": [\<newline>'' @
     ascii ''      { \"name\": \"Theme Name\", \"description\": \"Explanation\", \"color\": \"#FF5733\" }\<newline>'' @
     ascii ''    ],\<newline>'' @
     ascii ''    \"keyQuote\": \"The most famous or representative quote from the text.\",\<newline>'' @
     ascii ''    \"takeaways\": [\<newline>'' @
     ascii ''      \"Critical Insight 1\",\<newline>'' @
     ascii ''      \"Critical Insight 2\",\<newline>'' @
     ascii ''      \"Critical Insight 3\"\<newline>'' @
     ascii ''    ]\<newline>''"

definition promptTail_6 :: jsstring where
  "promptTail_6 =
     ascii ''  }\<newline>'' @
     ascii ''  ''"

definition promptTail :: jsstring where
  "promptTail = promptTail_0 @ promptTail_1 @ promptTail_2 @ promptTail_3 @ promptTail_4 @ promptTail_5 @ promptTail_6"

definition buildPrompt :: "jsstring \<Rightarrow> jsstring \<Rightarrow> jsstring" where
  "buildPrompt title author = promptHead @ title @ promptMid @ author @ promptTail"

subsection \<open>Reading the response\<close>

definition modelId :: jsstring where
  "modelId = ascii ''gemini-3-pro-preview''"

definition failureMessage :: jsstring where
  "failureMessage =
     ascii ''Failed to generate deep analysis. Please check the title/author and try again.''"

definition lbrace :: "16 word" where
  "lbrace = 0x7B"

definition rbrace :: "16 word" where
  "rbrace = 0x7D"

definition fenceJson :: jsstring where
  "fenceJson = ascii ''```json''"

definition fence :: jsstring where
  "fence = ascii ''```''"

text \<open>\<^verbatim>\<open>response.text || "{}"\<close>: an absent and an empty text are both falsy.\<close>

definition responseText :: "response \<Rightarrow> jsstring" where
  "responseText r =
     (case resp_text r of
        None \<Rightarrow> ascii ''{}''
      | Some t \<Rightarrow> if t = [] then ascii ''{}'' else t)"

text \<open>\<^verbatim>\<open>response.candidates?.[0]?.groundingMetadata?.groundingChunks || []\<close>\<close>

definition groundings :: "response \<Rightarrow> groundingChunk list" where
  "groundings r =
     (case resp_candidates r of
        None \<Rightarrow> []
      | Some [] \<Rightarrow> []
      | Some (c # cs) \<Rightarrow>
          (case cand_groundingMetadata c of
             None \<Rightarrow> []
           | Some gm \<Rightarrow>
               (case gm_groundingChunks gm of None \<Rightarrow> [] | Some chunks \<Rightarrow> chunks)))"

text \<open>\<^verbatim>\<open>chunk.web?.uri\<close>\<close>

definition chunkUri :: "groundingChunk \<Rightarrow> jsstring option" where
  "chunkUri chunk = (case chunk_web chunk of None \<Rightarrow> None | Some w \<Rightarrow> web_uri w)"

text \<open>\<^verbatim>\<open>!!uri\<close>: \<^verbatim>\<open>undefined\<close> and the empty string are falsy.\<close>

definition truthyUri :: "jsstring option \<Rightarrow> bool" where
  "truthyUri u = (case u of None \<Rightarrow> False | Some s \<Rightarrow> s \<noteq> [])"

text \<open>
  \<^verbatim>\<open>groundings.map(chunk => chunk.web?.uri).filter((uri): uri is string => !!uri)\<close>;
  the filter's type guard leaves strings only.
\<close>

definition sources :: "response \<Rightarrow> jsstring list" where
  "sources r = map the (filter truthyUri (map chunkUri (groundings r)))"

text \<open>The block \<^emph>\<open>Robust JSON Extraction\<close>: the value of \<^verbatim>\<open>cleanJson\<close> for a text.\<close>

definition cleanJson :: "jsstring \<Rightarrow> jsstring" where
  "cleanJson text' =
     (let firstBrace = indexOf text' lbrace;
          lastBrace = lastIndexOf text' rbrace
      in if firstBrace \<noteq> -1 \<and> lastBrace \<noteq> -1 \<and> lastBrace > firstBrace
         then substring text' firstBrace (lastBrace + 1)
         else trim (replaceGlobal fence [] (replaceGlobal fenceJson [] text')))"

text \<open>
  \<^verbatim>\<open>data.sources = sources\<close> in strict mode: an object or an array takes the property
  (replacing one of that name, else appended); \<^verbatim>\<open>null\<close> and primitives throw.
\<close>

definition sourcesKey :: jsstring where
  "sourcesKey = ascii ''sources''"

fun assignSources :: "platform \<Rightarrow> jsvalue \<Rightarrow> jsvalue \<Rightarrow> thrown + jsvalue" where
  "assignSources P (JObject kvs) v = Inr (JObject (AList.update sourcesKey v kvs))"
| "assignSources P (JArray xs ps) v = Inr (JArray xs (AList.update sourcesKey v ps))"
| "assignSources P d v = Inl (typeError P d)"

definition sourcesArray :: "jsstring list \<Rightarrow> jsvalue" where
  "sourcesArray uris = JArray (map JString uris) []"

text \<open>The statements of the \<^verbatim>\<open>try\<close> block after the call has resolved.\<close>

definition recoverDocument :: "platform \<Rightarrow> response \<Rightarrow> thrown + jsvalue" where
  "recoverDocument P r =
     (case jsonParse P (cleanJson (responseText r)) of
        Inl e \<Rightarrow> Inl e
      | Inr data \<Rightarrow> assignSources P data (sourcesArray (sources r)))"

definition makeRequest :: "jsstring \<Rightarrow> jsstring \<Rightarrow> request" where
  "makeRequest title author =
     \<lparr> req_model = modelId, req_contents = buildPrompt title author,
       req_tools = [GoogleSearch], req_temperature = 0.3 \<rparr>"

text \<open>
  \<^verbatim>\<open>generateBookInfographic\<close>: the returned sum is the promise's outcome (\<open>Inl\<close>
  rejected, \<open>Inr\<close> resolved); the events are the call issued and what the
  \<^verbatim>\<open>catch\<close> clause logged.
\<close>

definition generateBookInfographic ::
  "platform \<Rightarrow> jsstring \<Rightarrow> jsstring \<Rightarrow> event list \<times> (thrown + jsvalue)" where
  "generateBookInfographic P title author =
     (let req = makeRequest title author;
          tried = (case generateContent P req of
                     Inl e \<Rightarrow> Inl e
                   | Inr r \<Rightarrow> recoverDocument P r)
      in case tried of
           Inl e \<Rightarrow> ([NetworkCall req, ConsoleError e], Inl (ErrorObject failureMessage))
         | Inr data \<Rightarrow> ([NetworkCall req], Inr data))"

section \<open>App.tsx\<close>

datatype step = StepInput | StepLoading | StepResult | StepError

record inputs =
  inp_title :: jsstring
  inp_author :: jsstring

record app =
  app_step :: step
  app_inputs :: inputs
  app_data :: "jsvalue option"
  app_errorMsg :: jsstring

definition initialApp :: app where
  "initialApp =
     \<lparr> app_step = StepInput, app_inputs = \<lparr> inp_title = [], inp_author = [] \<rparr>,
       app_data = None, app_errorMsg = [] \<rparr>"

definition validationMessage :: jsstring where
  "validationMessage = ascii ''Please enter both the book title and the author.''"

definition unexpectedMessage :: jsstring where
  "unexpectedMessage = ascii ''An unexpected error occurred''"

text \<open>\<^verbatim>\<open>err instanceof Error ? err.message : "An unexpected error occurred"\<close>\<close>

definition messageOf :: "thrown \<Rightarrow> jsstring" where
  "messageOf err = (case err of ErrorObject m \<Rightarrow> m | NotAnError \<Rightarrow> unexpectedMessage)"

text \<open>
  \<^verbatim>\<open>handleConfirm\<close>, from the click to the state once the promise has settled, with
  the events of the run. While the call is pending the state is the one with
  \<open>StepLoading\<close> (\<open>handleConfirmPending\<close>), a screen that offers no control.
\<close>

definition handleConfirmPending :: "app \<Rightarrow> app" where
  "handleConfirmPending s = s\<lparr> app_step := StepLoading, app_errorMsg := [] \<rparr>"

definition handleConfirm :: "platform \<Rightarrow> app \<Rightarrow> event list \<times> app" where
  "handleConfirm P s =
     (if inp_title (app_inputs s) = [] \<or> inp_author (app_inputs s) = []
      then ([], s\<lparr> app_errorMsg := validationMessage \<rparr>)
      else
        (let pending = handleConfirmPending s;
             (events, outcome) =
               generateBookInfographic P (inp_title (app_inputs s)) (inp_author (app_inputs s))
         in case outcome of
              Inr result \<Rightarrow> (events, pending\<lparr> app_data := Some result, app_step := StepResult \<rparr>)
            | Inl err \<Rightarrow>
                (events, pending\<lparr> app_step := StepError, app_errorMsg := messageOf err \<rparr>)))"

definition handleReset :: "app \<Rightarrow> app" where
  "handleReset s =
     s\<lparr> app_inputs := \<lparr> inp_title = [], inp_author = [] \<rparr>, app_data := None,
        app_step := StepInput, app_errorMsg := [] \<rparr>"

text \<open>The \<^emph>\<open>Try Again\<close> button of the error screen: \<^verbatim>\<open>onClick={() => setStep('input')}\<close>\<close>

definition tryAgain :: "app \<Rightarrow> app" where
  "tryAgain s = s\<lparr> app_step := StepInput \<rparr>"

section \<open>components/Infographic: the PDF export\<close>

definition titleKey :: jsstring where
  "titleKey = ascii ''title''"

definition pdfSuffix :: jsstring where
  "pdfSuffix = ascii ''_Presentation.pdf''"

definition alertMessage :: jsstring where
  "alertMessage = ascii ''Could not generate PDF. Please try again.''"

text \<open>
  The template literal passed to \<^verbatim>\<open>pdf.save\<close>. \<^verbatim>\<open>data.title.replace\<close> throws a
  \<^verbatim>\<open>TypeError\<close> unless the title is a string.
\<close>

definition pdfFileName :: "platform \<Rightarrow> jsvalue \<Rightarrow> thrown + jsstring" where
  "pdfFileName P data =
     (case getProperty data titleKey of
        Some (JString t) \<Rightarrow> Inr (replaceWhiteSpaceRuns t @ pdfSuffix)
      | Some v \<Rightarrow> Inl (typeError P v)
      | None \<Rightarrow> Inl (typeError P JNull))" \<comment> \<open>an \<^verbatim>\<open>undefined\<close> title has no \<^verbatim>\<open>replace\<close> either\<close>

text \<open>
  The loop over the slides of the print container: each slide is rasterised in turn
  (\<^verbatim>\<open>html2canvas\<close>, \<^verbatim>\<open>toDataURL\<close>); the first failure leaves the loop.
\<close>

fun captureSlides :: "('s \<Rightarrow> thrown + 'i) \<Rightarrow> 's list \<Rightarrow> thrown + 'i list" where
  "captureSlides capture [] = Inr []"
| "captureSlides capture (slide # rest) =
     (case capture slide of
        Inl e \<Rightarrow> Inl e
      | Inr img \<Rightarrow>
          (case captureSlides capture rest of
             Inl e \<Rightarrow> Inl e
           | Inr imgs \<Rightarrow> Inr (img # imgs)))"

datatype 'i export = NotStarted | Saved jsstring "'i list" | Alerted jsstring

text \<open>
  \<^verbatim>\<open>handleDownloadPdf\<close>: nothing happens without the print container; otherwise the
  pages are captured, the file is saved under its name, and any error raised on the way
  is answered by an alert.
\<close>

definition handleDownloadPdf ::
  "platform \<Rightarrow> ('s \<Rightarrow> thrown + 'i) \<Rightarrow> 's list option \<Rightarrow> jsvalue \<Rightarrow> 'i export" where
  "handleDownloadPdf P capture container data =
     (case container of
        None \<Rightarrow> NotStarted
      | Some slides \<Rightarrow>
          (case captureSlides capture slides of
             Inl e \<Rightarrow> Alerted alertMessage
           | Inr pages \<Rightarrow>
               (case pdfFileName P data of
                  Inl e \<Rightarrow> Alerted alertMessage
                | Inr name \<Rightarrow> Saved name pages)))"

section \<open>The spec's words for the file name\<close>

text \<open>
  The spec describes the file name by the maximal runs of white space of the title. These
  definitions follow the spec, not the code: \<open>specRuns\<close> divides a string into its maximal
  runs of white space and of other code units, \<open>specMaximalRuns\<close> says what such a
  division is, and \<open>specUnderscoreRun\<close> turns a run of white space into one underscore.
\<close>

fun specRuns :: "jsstring \<Rightarrow> jsstring list" where
  "specRuns [] = []"
| "specRuns (x # xs) =
     (case specRuns xs of
        [] \<Rightarrow> [[x]]
      | r # rs \<Rightarrow>
          if isWhiteSpace x = isWhiteSpace (hd r) then (x # r) # rs else [x] # r # rs)"

definition specUniformRun :: "jsstring \<Rightarrow> bool" where
  "specUniformRun r = (r \<noteq> [] \<and> list_all (\<lambda>c. isWhiteSpace c = isWhiteSpace (hd r)) r)"

fun specMaximalRuns :: "jsstring list \<Rightarrow> bool" where
  "specMaximalRuns [] = True"
| "specMaximalRuns [r] = specUniformRun r"
| "specMaximalRuns (r # r' # rs) =
     (specUniformRun r \<and> r' \<noteq> [] \<and> isWhiteSpace (hd r) \<noteq> isWhiteSpace (hd r')
      \<and> specMaximalRuns (r' # rs))"

definition specUnderscoreRun :: "jsstring \<Rightarrow> jsstring" where
  "specUnderscoreRun r = (if isWhiteSpace (hd r) then ascii ''_'' else r)"

section \<open>A platform and a response to run the program on\<close>

text \<open>
  A platform whose API gives one fixed answer and whose \<^verbatim>\<open>JSON.parse\<close> is a finite
  table (a text outside the table is rejected), a response with three grounding chunks
  of which the second has no URI, the same response with a second candidate that has a
  chunk of its own, and an application state with both inputs typed.
\<close>

definition tablePlatform :: "(thrown + response) \<Rightarrow> (jsstring \<times> jsvalue) list \<Rightarrow> platform" where
  "tablePlatform answer table =
     \<lparr> generateContent = (\<lambda>req. answer),
       jsonParse = (\<lambda>s. case map_of table s of
                            Some v \<Rightarrow> Inr v
                          | None \<Rightarrow> Inl (ErrorObject (ascii ''Unexpected token''))),
       typeError = (\<lambda>v. ErrorObject (ascii ''Cannot create property'')) \<rparr>"

definition sampleChunks :: "groundingChunk list" where
  "sampleChunks =
     [\<lparr> chunk_web = Some \<lparr> web_uri = Some (ascii ''https://a.example/'') \<rparr> \<rparr>,
      \<lparr> chunk_web = Some \<lparr> web_uri = None \<rparr> \<rparr>,
      \<lparr> chunk_web = Some \<lparr> web_uri = Some (ascii ''https://b.example/'') \<rparr> \<rparr>]"

definition sampleResponse :: "jsstring option \<Rightarrow> response" where
  "sampleResponse txt =
     \<lparr> resp_text = txt,
       resp_candidates =
         Some [\<lparr> cand_groundingMetadata = Some \<lparr> gm_groundingChunks = Some sampleChunks \<rparr> \<rparr>] \<rparr>"

definition sampleTwoCandidates :: "jsstring option \<Rightarrow> response" where
  "sampleTwoCandidates txt =
     \<lparr> resp_text = txt,
       resp_candidates =
         Some [\<lparr> cand_groundingMetadata = Some \<lparr> gm_groundingChunks = Some sampleChunks \<rparr> \<rparr>,
               \<lparr> cand_groundingMetadata = Some \<lparr> gm_groundingChunks =
                   Some [\<lparr> chunk_web = Some \<lparr> web_uri = Some (ascii ''https://c.example/'') \<rparr> \<rparr>] \<rparr> \<rparr>] \<rparr>"

definition sampleApp :: "jsstring \<Rightarrow> jsstring \<Rightarrow> app" where
  "sampleApp title author =
     initialApp\<lparr> app_inputs := \<lparr> inp_title = title, inp_author = author \<rparr> \<rparr>"

section \<open>The JSON candidate\<close>

lemma indexOf_notin: "c \<notin> set s \<Longrightarrow> indexOf s c = -1"
  by (induction s) auto

lemma indexOf_first: "c \<notin> set pre \<Longrightarrow> indexOf (pre @ c # rest) c = int (length pre)"
  by (induction pre) (auto simp: Let_def)

lemma lastIndexOf_last:
  assumes "c \<notin> set post"
  shows "lastIndexOf (pre @ c # post) c = int (length pre)"
proof -
  have "indexOf (rev post @ c # rev pre) c = int (length post)"
    using assms by (simp add: indexOf_first)
  then show ?thesis by (simp add: lastIndexOf_def)
qed

lemma substring_span:
  "substring (pre @ mid @ post) (int (length pre)) (int (length pre + length mid)) = mid"
proof -
  let ?a = "int (length pre)" and ?b = "int (length pre + length mid)"
  let ?len = "int (length (pre @ mid @ post))"
  have 1: "min (max ?a 0) ?len = ?a" by simp
  have 2: "min (max ?b 0) ?len = ?b" by simp
  have 3: "min ?a ?b = ?a" by simp
  have 4: "max ?a ?b = ?b" by simp
  have 5: "nat (?b - ?a) = length mid" by simp
  have 6: "take (length mid) (drop (length pre) (pre @ mid @ post)) = mid" by simp
  show ?thesis
    unfolding substring_def Let_def 1 2 3 4 5 using 6 by simp
qed

lemma take_span:
  assumes "i < j" and "j < length t"
  shows "take (j - i + 1) (drop i t) = t ! i # take (j - i - 1) (drop (Suc i) t) @ [t ! j]"
proof -
  have d: "drop i t = t ! i # drop (Suc i) t"
    using assms by (simp add: Cons_nth_drop_Suc)
  have n: "j - i = Suc (j - i - 1)" using assms by simp
  have l: "j - i - 1 < length (drop (Suc i) t)" using assms by simp
  have "take (Suc (j - i - 1)) (drop (Suc i) t)
      = take (j - i - 1) (drop (Suc i) t) @ [drop (Suc i) t ! (j - i - 1)]"
    using l by (rule take_Suc_conv_app_nth)
  moreover have "drop (Suc i) t ! (j - i - 1) = t ! j" using assms by simp
  ultimately have "take (j - i) (drop (Suc i) t) = take (j - i - 1) (drop (Suc i) t) @ [t ! j]"
    using n by simp
  then show ?thesis using d by simp
qed

lemma cleanJson_span:
  assumes "lbrace \<notin> set pre" and "rbrace \<notin> set post"
  shows "cleanJson (pre @ lbrace # mid @ rbrace # post) = lbrace # mid @ [rbrace]"
proof -
  let ?t = "pre @ lbrace # mid @ rbrace # post"
  have f: "indexOf ?t lbrace = int (length pre)"
    using assms(1) by (rule indexOf_first)
  have "lastIndexOf ((pre @ lbrace # mid) @ rbrace # post) rbrace = int (length (pre @ lbrace # mid))"
    using assms(2) by (rule lastIndexOf_last)
  then have l: "lastIndexOf ?t rbrace = int (length pre + length mid + 1)"
    by simp
  have "substring (pre @ (lbrace # mid @ [rbrace]) @ post) (int (length pre))
          (int (length pre + length (lbrace # mid @ [rbrace]))) = lbrace # mid @ [rbrace]"
    by (rule substring_span)
  then have s: "substring ?t (int (length pre)) (int (length pre + length mid + 1) + 1)
      = lbrace # mid @ [rbrace]"
    by (simp add: add.commute add.left_commute)
  show ?thesis
    unfolding cleanJson_def Let_def f l using s by simp
qed

lemma split_at_two:
  assumes "i < j" and "j < length t"
  shows "t = take i t @ t ! i # take (j - i - 1) (drop (Suc i) t) @ t ! j # drop (Suc j) t"
proof -
  have a: "drop i t = t ! i # drop (Suc i) t"
    using assms by (simp add: Cons_nth_drop_Suc)
  have b: "drop (j - i - 1) (drop (Suc i) t) = drop j t"
    using assms by simp
  have c: "drop j t = t ! j # drop (Suc j) t"
    using assms by (simp add: Cons_nth_drop_Suc)
  have "take (j - i - 1) (drop (Suc i) t) @ drop (j - i - 1) (drop (Suc i) t) = drop (Suc i) t"
    by (rule append_take_drop_id)
  then have d: "take (j - i - 1) (drop (Suc i) t) @ t ! j # drop (Suc j) t = drop (Suc i) t"
    by (simp only: b c)
  have "take i t @ drop i t = t"
    by (rule append_take_drop_id)
  then show ?thesis
    by (simp only: a d)
qed

text \<open>
  \<^bold>\<open>C1.\<close> Let the response text \<open>t\<close> hold a \<open>{\<close> at index \<open>i\<close> and none before it, and
  a \<open>}\<close> at index \<open>j\<close> and none after it, with \<open>i < j\<close>. Then the JSON candidate is
  exactly the code units of \<open>t\<close> from index \<open>i\<close> through index \<open>j\<close>. Nothing is asked
  of the rest of \<open>t\<close>: the rule applies whether or not \<open>t\<close> holds fence markers, and the
  fence-stripping branch is not taken.
\<close>

theorem C1_brace_span:
  assumes "resp_text r = Some t"
    and "i < j" and "j < length t"
    and "t ! i = lbrace" and "lbrace \<notin> set (take i t)"
    and "t ! j = rbrace" and "rbrace \<notin> set (drop (Suc j) t)"
  shows "cleanJson (responseText r) = take (j - i + 1) (drop i t)"
proof -
  let ?mid = "take (j - i - 1) (drop (Suc i) t)"
  have t: "take i t @ lbrace # ?mid @ rbrace # drop (Suc j) t = t"
    using split_at_two [OF assms(2,3)] assms(4,6) by simp
  have "cleanJson (take i t @ lbrace # ?mid @ rbrace # drop (Suc j) t) = lbrace # ?mid @ [rbrace]"
    using assms(5,7) by (rule cleanJson_span)
  then have c: "cleanJson t = lbrace # ?mid @ [rbrace]"
    by (simp only: t)
  have "t \<noteq> []" using assms(3) by auto
  then have rt: "responseText r = t"
    using assms(1) by (simp add: responseText_def)
  have "take (j - i + 1) (drop i t) = lbrace # ?mid @ [rbrace]"
    using take_span [OF assms(2,3)] assms(4,6) by simp
  then show ?thesis using c rt by simp
qed

text \<open>
  The fenced answer of the spec's third test (braces at indices 8 and 14): the candidate
  is the brace span, fence markers or not.
\<close>

theorem C1_brace_span_witness:
  "cleanJson (responseText \<lparr> resp_text = Some (ascii ''```json\<newline>{\"a\":1}\<newline>```''),
       resp_candidates = None \<rparr>) = ascii ''{\"a\":1}''"
proof -
  let ?t = "ascii ''```json\<newline>{\"a\":1}\<newline>```''"
  let ?r = "\<lparr> resp_text = Some ?t, resp_candidates = None \<rparr>"
  have "cleanJson (responseText ?r) = take (14 - 8 + 1) (drop 8 ?t)"
    by (rule C1_brace_span) (simp_all add: ascii_def lbrace_def rbrace_def)
  then show ?thesis by (simp add: ascii_def)
qed

text \<open>\<open>occursIn\<close> says that the pattern starts at some index of the string.\<close>

lemma occursIn_positions: "occursIn pat s \<longleftrightarrow> (\<exists>i \<le> length s. prefix pat (drop i s))"
proof (induction s)
  case Nil
  then show ?case by simp
next
  case (Cons x xs)
  show ?case
  proof
    assume "occursIn pat (x # xs)"
    then consider "prefix pat (x # xs)" | "occursIn pat xs" by auto
    then show "\<exists>i \<le> length (x # xs). prefix pat (drop i (x # xs))"
    proof cases
      case 1
      then have "prefix pat (drop 0 (x # xs))" by simp
      then show ?thesis by blast
    next
      case 2
      then obtain i where "i \<le> length xs" and "prefix pat (drop i xs)" using Cons by blast
      then have "Suc i \<le> length (x # xs) \<and> prefix pat (drop (Suc i) (x # xs))" by simp
      then show ?thesis by blast
    qed
  next
    assume "\<exists>i \<le> length (x # xs). prefix pat (drop i (x # xs))"
    then obtain i where i: "i \<le> length (x # xs)" and p: "prefix pat (drop i (x # xs))" by blast
    show "occursIn pat (x # xs)"
    proof (cases i)
      case 0
      then show ?thesis using p by simp
    next
      case (Suc j)
      then have "j \<le> length xs \<and> prefix pat (drop j xs)" using i p by simp
      then show ?thesis using Cons by auto
    qed
  qed
qed

lemma replaceGlobal_absent: "\<not> occursIn pat s \<Longrightarrow> replaceGlobal pat rep s = s"
  by (induction s) auto

lemma occursIn_longer: "occursIn (p @ q) s \<Longrightarrow> occursIn p s"
  by (induction s) (auto dest: append_prefixD)

lemma fenceJson_fence: "fenceJson = fence @ ascii ''json''"
  by (simp add: fenceJson_def fence_def ascii_def)

lemma set_trim: "set (trim s) \<subseteq> set s"
proof -
  have "set (dropWhile isWhiteSpace (rev (dropWhile isWhiteSpace s))) \<subseteq> set (rev (dropWhile isWhiteSpace s))"
    by (auto dest: set_dropWhileD)
  also have "\<dots> \<subseteq> set s" by (auto dest: set_dropWhileD)
  finally show ?thesis by (simp add: trim_def)
qed

lemma cleanJson_no_brace:
  assumes "lbrace \<notin> set t"
  shows "cleanJson t = trim (replaceGlobal fence [] (replaceGlobal fenceJson [] t))"
  using assms by (simp add: cleanJson_def Let_def indexOf_notin)

text \<open>
  \<^bold>\<open>C2\<close> as stated fails. The answer \<^verbatim>\<open>No such book.\<close> has no brace and no fence marker,
  and its candidate is the answer itself, not \<^verbatim>\<open>{}\<close>: both branches of the
  \<^verbatim>\<open>if\<close> assign \<^verbatim>\<open>cleanJson\<close>, so its initial value is never used.
\<close>

theorem C2_counterexample:
  "lbrace \<notin> set (ascii ''No such book.'') \<and> rbrace \<notin> set (ascii ''No such book.'')
   \<and> \<not> occursIn fence (ascii ''No such book.'')
   \<and> cleanJson (responseText \<lparr> resp_text = Some (ascii ''No such book.''), resp_candidates = None \<rparr>)
       = ascii ''No such book.''
   \<and> cleanJson (responseText \<lparr> resp_text = Some (ascii ''No such book.''), resp_candidates = None \<rparr>)
       \<noteq> ascii ''{}''"
  by (simp add: cleanJson_def responseText_def ascii_def lbrace_def rbrace_def fence_def fenceJson_def
      lastIndexOf_def trim_def isWhiteSpace_def)

text \<open>
  \<^bold>\<open>C2, amended.\<close> For a non-empty response text with no \<open>{\<close>, no \<open>}\<close> and no
  triple-backtick marker, the JSON candidate is the text with the white space at both
  ends trimmed, and it is never the literal \<^verbatim>\<open>{}\<close>.
\<close>

theorem C2_trimmed_text:
  assumes "resp_text r = Some t" and "t \<noteq> []"
    and "lbrace \<notin> set t" and "rbrace \<notin> set t" and "\<not> occursIn fence t"
  shows "cleanJson (responseText r) = trim t \<and> cleanJson (responseText r) \<noteq> ascii ''{}''"
proof -
  have rt: "responseText r = t"
    using assms(1,2) by (simp add: responseText_def)
  have "\<not> occursIn fenceJson t"
    using assms(5) occursIn_longer [of fence "ascii ''json''" t] by (auto simp: fenceJson_fence)
  then have c: "cleanJson t = trim t"
    using assms(3,5) by (simp add: cleanJson_no_brace replaceGlobal_absent)
  have "lbrace \<notin> set (trim t)"
    using assms(3) set_trim [of t] by auto
  moreover have "lbrace \<in> set (ascii ''{}'')"
    by (simp add: ascii_def lbrace_def)
  ultimately have "trim t \<noteq> ascii ''{}''" by metis
  then show ?thesis using c rt by simp
qed

text \<open>
  An answer that is a JSON array between white space.
\<close>

theorem C2_trimmed_text_witness:
  "cleanJson (responseText \<lparr> resp_text = Some (ascii '' [1, 2]\<newline>''), resp_candidates = None \<rparr>)
     = ascii ''[1, 2]''"
proof -
  let ?t = "ascii '' [1, 2]\<newline>''"
  have "cleanJson (responseText \<lparr> resp_text = Some ?t, resp_candidates = None \<rparr>) = trim ?t
      \<and> cleanJson (responseText \<lparr> resp_text = Some ?t, resp_candidates = None \<rparr>) \<noteq> ascii ''{}''"
    by (rule C2_trimmed_text) (simp_all add: ascii_def lbrace_def rbrace_def fence_def)
  then show ?thesis by (simp add: trim_def isWhiteSpace_def ascii_def)
qed

section \<open>Recovery, sources and failures\<close>

lemma getProperty_assignSources:
  "assignSources P data v = Inr doc \<Longrightarrow> getProperty doc sourcesKey = Some v"
  by (cases data) (auto simp: update_conv')

lemma getProperty_assignSources_other:
  "assignSources P data v = Inr doc \<Longrightarrow> k \<noteq> sourcesKey \<Longrightarrow> getProperty doc k = getProperty data k"
  by (cases data) (auto simp: update_conv')

lemma sources_comprehension:
  "map the (filter truthyUri (map chunkUri chunks))
     = [u. c \<leftarrow> chunks, Some w \<leftarrow> [chunk_web c], Some u \<leftarrow> [web_uri w], u \<noteq> []]"
  by (induction chunks) (auto simp: truthyUri_def chunkUri_def split: option.splits)

lemma generate_resolved:
  assumes "snd (generateBookInfographic P title author) = Inr doc"
  shows "\<exists>r data. generateContent P (makeRequest title author) = Inr r
           \<and> jsonParse P (cleanJson (responseText r)) = Inr data
           \<and> assignSources P data (sourcesArray (sources r)) = Inr doc"
  using assms
  by (auto simp: generateBookInfographic_def recoverDocument_def Let_def split: sum.splits)

lemma generate_rejected:
  assumes "snd (generateBookInfographic P title author) = Inl x"
  shows "x = ErrorObject failureMessage"
  using assms
  by (auto simp: generateBookInfographic_def Let_def split: sum.splits)

lemma sources_of_candidates:
  "sources r =
     [u. Some (c0 # rest) \<leftarrow> [resp_candidates r], Some gm \<leftarrow> [cand_groundingMetadata c0],
         Some chunks \<leftarrow> [gm_groundingChunks gm], c \<leftarrow> chunks,
         Some w \<leftarrow> [chunk_web c], Some u \<leftarrow> [web_uri w], u \<noteq> []]"
  (is "_ = ?uris")
proof (cases "resp_candidates r")
  case None
  then show ?thesis by (simp add: sources_def groundings_def)
next
  case (Some cands)
  show ?thesis
  proof (cases cands)
    case Nil
    then show ?thesis using Some by (simp add: sources_def groundings_def)
  next
    case (Cons c0 rest)
    show ?thesis
    proof (cases "cand_groundingMetadata c0")
      case None
      then show ?thesis using Some Cons by (simp add: sources_def groundings_def)
    next
      case gm: (Some gm)
      show ?thesis
      proof (cases "gm_groundingChunks gm")
        case None
        then show ?thesis using Some Cons gm by (simp add: sources_def groundings_def)
      next
        case chunks: (Some chunks)
        have g: "groundings r = chunks"
          using Some Cons gm chunks by (simp add: groundings_def)
        have "?uris = [u. c \<leftarrow> chunks, Some w \<leftarrow> [chunk_web c], Some u \<leftarrow> [web_uri w], u \<noteq> []]"
          using Some Cons gm chunks by (simp cong: option.case_cong)
        then show ?thesis
          by (simp only: sources_def g sources_comprehension)
      qed
    qed
  qed
qed

text \<open>
  \<^bold>\<open>C3.\<close> When the API call has resolved with \<open>r\<close> and the function returns a document,
  the document's \<^verbatim>\<open>sources\<close> is the array of the \<^verbatim>\<open>web.uri\<close> values of
  \<^verbatim>\<open>candidates[0].groundingMetadata.groundingChunks\<close> of \<open>r\<close>, in their order (none when a
  part of that path is absent), without the chunks that lack a URI: those with no
  \<^verbatim>\<open>web\<close>, with no \<^verbatim>\<open>uri\<close>, or with the empty string for a URI (the three cases the
  source's \<^verbatim>\<open>!!uri\<close> rejects). Nothing is assumed of the parsed JSON: a
  \<^verbatim>\<open>sources\<close> of its own is overwritten.
\<close>

theorem C3_sources:
  assumes "generateContent P (makeRequest title author) = Inr r"
    and "snd (generateBookInfographic P title author) = Inr doc"
  shows "getProperty doc (ascii ''sources'') =
     Some (JArray (map JString
        [u. Some (c0 # rest) \<leftarrow> [resp_candidates r], Some gm \<leftarrow> [cand_groundingMetadata c0],
            Some chunks \<leftarrow> [gm_groundingChunks gm], c \<leftarrow> chunks,
            Some w \<leftarrow> [chunk_web c], Some u \<leftarrow> [web_uri w], u \<noteq> []]) [])"
proof -
  obtain r' data where "generateContent P (makeRequest title author) = Inr r'"
    and "assignSources P data (sourcesArray (sources r')) = Inr doc"
    using generate_resolved [OF assms(2)] by blast
  then have "assignSources P data (sourcesArray (sources r)) = Inr doc"
    using assms(1) by simp
  then have "getProperty doc sourcesKey = Some (sourcesArray (sources r))"
    by (rule getProperty_assignSources)
  then have "getProperty doc (ascii ''sources'') = Some (JArray (map JString (sources r)) [])"
    by (simp add: sourcesArray_def sourcesKey_def)
  then show ?thesis
    by (simp only: sources_of_candidates)
qed

text \<open>
  Two candidates: the first has two URIs around a chunk without one, the second a URI
  that must not appear; the parsed object brings its own \<^verbatim>\<open>sources\<close>.
\<close>

theorem C3_sources_witness:
  "\<exists>doc. snd (generateBookInfographic
        (tablePlatform (Inr (sampleTwoCandidates (Some (ascii ''{\"sources\":\"x\"}''))))
           [(ascii ''{\"sources\":\"x\"}'', JObject [(ascii ''sources'', JString (ascii ''x''))])])
        (ascii ''Ulysses'') (ascii ''James Joyce'')) = Inr doc
     \<and> getProperty doc (ascii ''sources'') =
         Some (JArray [JString (ascii ''https://a.example/''), JString (ascii ''https://b.example/'')] [])"
proof -
  let ?r = "sampleTwoCandidates (Some (ascii ''{\"sources\":\"x\"}''))"
  let ?P = "tablePlatform (Inr ?r)
     [(ascii ''{\"sources\":\"x\"}'', JObject [(ascii ''sources'', JString (ascii ''x''))])]"
  let ?doc = "JObject [(ascii ''sources'', sourcesArray (sources ?r))]"
  have c: "cleanJson (ascii ''{\"sources\":\"x\"}'') = ascii ''{\"sources\":\"x\"}''"
    by (simp add: cleanJson_def ascii_def lbrace_def rbrace_def lastIndexOf_def substring_def)
  have t: "responseText ?r = ascii ''{\"sources\":\"x\"}''"
    by (simp add: responseText_def sampleTwoCandidates_def ascii_def)
  have a: "generateContent ?P (makeRequest (ascii ''Ulysses'') (ascii ''James Joyce'')) = Inr ?r"
    by (simp add: tablePlatform_def)
  have b: "snd (generateBookInfographic ?P (ascii ''Ulysses'') (ascii ''James Joyce'')) = Inr ?doc"
    by (simp add: generateBookInfographic_def recoverDocument_def Let_def t c tablePlatform_def sourcesKey_def)
  have e: "[u. Some (c0 # rest) \<leftarrow> [resp_candidates ?r], Some gm \<leftarrow> [cand_groundingMetadata c0],
            Some chunks \<leftarrow> [gm_groundingChunks gm], c \<leftarrow> chunks,
            Some w \<leftarrow> [chunk_web c], Some u \<leftarrow> [web_uri w], u \<noteq> []]
      = [ascii ''https://a.example/'', ascii ''https://b.example/'']"
    by (simp add: sampleTwoCandidates_def sampleChunks_def ascii_def)
  have "getProperty ?doc (ascii ''sources'') =
      Some (JArray (map JString
        [u. Some (c0 # rest) \<leftarrow> [resp_candidates ?r], Some gm \<leftarrow> [cand_groundingMetadata c0],
            Some chunks \<leftarrow> [gm_groundingChunks gm], c \<leftarrow> chunks,
            Some w \<leftarrow> [chunk_web c], Some u \<leftarrow> [web_uri w], u \<noteq> []]) [])"
    using a b by (rule C3_sources)
  then have "getProperty ?doc (ascii ''sources'') =
      Some (JArray [JString (ascii ''https://a.example/''), JString (ascii ''https://b.example/'')] [])"
    unfolding e by simp
  then show ?thesis using b by blast
qed

text \<open>
  \<^bold>\<open>C4.\<close> Let \<open>e\<close> be the error of a rejected API call, or the error \<^verbatim>\<open>JSON.parse\<close>
  throws on the candidate. Then \<open>generateBookInfographic\<close> logs \<open>e\<close> and rejects with an
  error whose message is the fixed text, written out below; and \<open>handleConfirm\<close>, from a
  state with both inputs typed, ends in the error state with that text for its message.
  Neither result depends on \<open>e\<close> or on which of the two failed.
\<close>

theorem C4_flattened:
  assumes "generateContent P (makeRequest title author) = Inl e
     \<or> (\<exists>r. generateContent P (makeRequest title author) = Inr r
           \<and> jsonParse P (cleanJson (responseText r)) = Inl e)"
    and "inp_title (app_inputs s) = title" and "inp_author (app_inputs s) = author"
    and "title \<noteq> []" and "author \<noteq> []"
  shows "generateBookInfographic P title author =
           ([NetworkCall (makeRequest title author), ConsoleError e],
            Inl (ErrorObject (ascii
              ''Failed to generate deep analysis. Please check the title/author and try again.'')))
       \<and> snd (handleConfirm P s) =
           s\<lparr> app_step := StepError,
              app_errorMsg := ascii
                ''Failed to generate deep analysis. Please check the title/author and try again.'' \<rparr>"
proof -
  have g: "generateBookInfographic P title author =
      ([NetworkCall (makeRequest title author), ConsoleError e], Inl (ErrorObject failureMessage))"
    using assms(1)
    by (auto simp: generateBookInfographic_def recoverDocument_def Let_def)
  then have "snd (handleConfirm P s) = s\<lparr> app_step := StepError, app_errorMsg := failureMessage \<rparr>"
    using assms(2-5)
    by (simp add: handleConfirm_def handleConfirmPending_def messageOf_def)
  then show ?thesis using g by (simp add: failureMessage_def)
qed

text \<open>
  An answer cut off in the middle, which the parser rejects with a message of its own.
\<close>

theorem C4_flattened_witness:
  "generateBookInfographic
      (tablePlatform (Inr (sampleResponse (Some (ascii ''{\"title\": \"Ulys''))))
         [(ascii ''{}'', JObject [])])
      (ascii ''Ulysses'') (ascii ''James Joyce'')
    = ([NetworkCall (makeRequest (ascii ''Ulysses'') (ascii ''James Joyce'')),
        ConsoleError (ErrorObject (ascii ''Unexpected token''))],
       Inl (ErrorObject (ascii
         ''Failed to generate deep analysis. Please check the title/author and try again.'')))
   \<and> snd (handleConfirm
      (tablePlatform (Inr (sampleResponse (Some (ascii ''{\"title\": \"Ulys''))))
         [(ascii ''{}'', JObject [])])
      (sampleApp (ascii ''Ulysses'') (ascii ''James Joyce'')))
    = (sampleApp (ascii ''Ulysses'') (ascii ''James Joyce''))
        \<lparr> app_step := StepError,
          app_errorMsg := ascii
            ''Failed to generate deep analysis. Please check the title/author and try again.'' \<rparr>"
proof -
  let ?r = "sampleResponse (Some (ascii ''{\"title\": \"Ulys''))"
  let ?P = "tablePlatform (Inr ?r) [(ascii ''{}'', JObject [])]"
  have t: "responseText ?r = ascii ''{\"title\": \"Ulys''"
    by (simp add: responseText_def sampleResponse_def ascii_def)
  have c: "cleanJson (ascii ''{\"title\": \"Ulys'') = ascii ''{\"title\": \"Ulys''"
    by (simp add: cleanJson_def ascii_def lbrace_def rbrace_def lastIndexOf_def fence_def
        fenceJson_def trim_def isWhiteSpace_def)
  have p: "jsonParse ?P (ascii ''{\"title\": \"Ulys'') = Inl (ErrorObject (ascii ''Unexpected token''))"
    by (simp add: tablePlatform_def ascii_def)
  have h: "generateContent ?P (makeRequest (ascii ''Ulysses'') (ascii ''James Joyce''))
        = Inl (ErrorObject (ascii ''Unexpected token''))
      \<or> (\<exists>r. generateContent ?P (makeRequest (ascii ''Ulysses'') (ascii ''James Joyce'')) = Inr r
            \<and> jsonParse ?P (cleanJson (responseText r)) = Inl (ErrorObject (ascii ''Unexpected token'')))"
    using p by (simp add: tablePlatform_def t c)
  show ?thesis
    by (rule C4_flattened [OF h]) (simp_all add: sampleApp_def ascii_def)
qed

text \<open>
  \<^bold>\<open>C9.\<close> A returned document comes from a resolved call \<open>r\<close> and a parsed value
  \<open>data\<close>; its \<^verbatim>\<open>sources\<close> is defined and is the array of the sources of \<open>r\<close>,
  whatever \<open>data\<close> held; and every other property is exactly as in \<open>data\<close>, defined only
  if the model's JSON defined it.
\<close>

theorem C9_sources_defined:
  assumes "snd (generateBookInfographic P title author) = Inr doc"
  shows "\<exists>r data. generateContent P (makeRequest title author) = Inr r
       \<and> jsonParse P (cleanJson (responseText r)) = Inr data
       \<and> getProperty doc sourcesKey = Some (JArray (map JString (sources r)) [])
       \<and> (\<forall>k. k \<noteq> sourcesKey \<longrightarrow> getProperty doc k = getProperty data k)"
proof -
  obtain r data where a: "generateContent P (makeRequest title author) = Inr r"
    and b: "jsonParse P (cleanJson (responseText r)) = Inr data"
    and c: "assignSources P data (sourcesArray (sources r)) = Inr doc"
    using generate_resolved [OF assms] by blast
  have "getProperty doc sourcesKey = Some (JArray (map JString (sources r)) [])"
    using getProperty_assignSources [OF c] by (simp add: sourcesArray_def)
  moreover have "\<forall>k. k \<noteq> sourcesKey \<longrightarrow> getProperty doc k = getProperty data k"
    using getProperty_assignSources_other [OF c] by simp
  ultimately show ?thesis using a b by blast
qed

text \<open>
  A parsed object with a title and no \<^verbatim>\<open>sources\<close>.
\<close>

theorem C9_sources_defined_witness:
  "\<exists>r data.
      generateContent
        (tablePlatform (Inr (sampleResponse (Some (ascii ''Here: {\"title\":\"Ulysses\"}''))))
           [(ascii ''{\"title\":\"Ulysses\"}'', JObject [(ascii ''title'', JString (ascii ''Ulysses''))])])
        (makeRequest (ascii ''Ulysses'') (ascii ''James Joyce'')) = Inr r
    \<and> jsonParse
        (tablePlatform (Inr (sampleResponse (Some (ascii ''Here: {\"title\":\"Ulysses\"}''))))
           [(ascii ''{\"title\":\"Ulysses\"}'', JObject [(ascii ''title'', JString (ascii ''Ulysses''))])])
        (cleanJson (responseText r)) = Inr data
    \<and> getProperty
        (JObject [(ascii ''title'', JString (ascii ''Ulysses'')),
                  (ascii ''sources'', sourcesArray (sources (sampleResponse None)))])
        sourcesKey = Some (JArray (map JString (sources r)) [])
    \<and> (\<forall>k. k \<noteq> sourcesKey \<longrightarrow>
          getProperty
            (JObject [(ascii ''title'', JString (ascii ''Ulysses'')),
                      (ascii ''sources'', sourcesArray (sources (sampleResponse None)))]) k
          = getProperty data k)"
proof -
  let ?r = "sampleResponse (Some (ascii ''Here: {\"title\":\"Ulysses\"}''))"
  let ?P = "tablePlatform (Inr ?r)
     [(ascii ''{\"title\":\"Ulysses\"}'', JObject [(ascii ''title'', JString (ascii ''Ulysses''))])]"
  have t: "responseText ?r = ascii ''Here: {\"title\":\"Ulysses\"}''"
    by (simp add: responseText_def sampleResponse_def ascii_def)
  have c: "cleanJson (ascii ''Here: {\"title\":\"Ulysses\"}'') = ascii ''{\"title\":\"Ulysses\"}''"
    by (simp add: cleanJson_def ascii_def lbrace_def rbrace_def lastIndexOf_def substring_def)
  have s: "sources ?r = sources (sampleResponse None)"
    by (simp add: sources_def groundings_def sampleResponse_def)
  have k: "sourcesKey \<noteq> ascii ''title''"
    by (simp add: sourcesKey_def ascii_def)
  have "snd (generateBookInfographic ?P (ascii ''Ulysses'') (ascii ''James Joyce''))
      = Inr (JObject [(ascii ''title'', JString (ascii ''Ulysses'')),
                      (ascii ''sources'', sourcesArray (sources (sampleResponse None)))])"
    using k by (simp add: generateBookInfographic_def recoverDocument_def Let_def t c s
        tablePlatform_def sourcesKey_def)
  then show ?thesis by (rule C9_sources_defined)
qed

lemma cleanJson_empty_object: "cleanJson (ascii ''{}'') = ascii ''{}''"
  by (simp add: cleanJson_def ascii_def lbrace_def rbrace_def lastIndexOf_def substring_def)

text \<open>
  \<^bold>\<open>C10.\<close> If the response has no text or the empty text, the text recovered from is
  the literal \<^verbatim>\<open>{}\<close>; \<^verbatim>\<open>JSON.parse\<close> maps it to the empty object, so the call
  resolves, and the returned document has the attached \<^verbatim>\<open>sources\<close> array for its one
  property.
\<close>

theorem C10_empty_text:
  assumes "generateContent P (makeRequest title author) = Inr r"
    and "resp_text r = None \<or> resp_text r = Some []"
    and "jsonParse P (ascii ''{}'') = Inr (JObject [])"
  shows "responseText r = ascii ''{}''
     \<and> generateBookInfographic P title author =
         ([NetworkCall (makeRequest title author)],
          Inr (JObject [(sourcesKey, JArray (map JString (sources r)) [])]))"
proof -
  have t: "responseText r = ascii ''{}''"
    using assms(2) by (auto simp: responseText_def)
  then have "recoverDocument P r = Inr (JObject [(sourcesKey, sourcesArray (sources r))])"
    using assms(3) by (simp add: recoverDocument_def cleanJson_empty_object)
  then show ?thesis
    using t assms(1) by (simp add: generateBookInfographic_def Let_def sourcesArray_def)
qed

text \<open>
  A response without text.
\<close>

theorem C10_empty_text_witness:
  "responseText (sampleResponse None) = ascii ''{}''
   \<and> generateBookInfographic (tablePlatform (Inr (sampleResponse None)) [(ascii ''{}'', JObject [])])
        (ascii ''Ulysses'') (ascii ''James Joyce'')
     = ([NetworkCall (makeRequest (ascii ''Ulysses'') (ascii ''James Joyce''))],
        Inr (JObject [(sourcesKey, JArray (map JString (sources (sampleResponse None))) [])]))"
  by (rule C10_empty_text) (simp_all add: tablePlatform_def sampleResponse_def)

section \<open>The view state\<close>

lemma generate_issues_call:
  "\<exists>rest. fst (generateBookInfographic P title author) = NetworkCall (makeRequest title author) # rest"
  by (auto simp: generateBookInfographic_def Let_def split: sum.splits)

text \<open>
  \<^bold>\<open>C7.\<close> Submitting from the input screen with an empty title or an empty author
  issues no network call (no event at all: \<open>generateBookInfographic\<close>, which starts
  with the call, is not run), leaves the view state \<open>input\<close> and every other field as
  it was, and sets the validation message.
\<close>

theorem C7_validation:
  assumes "app_step s = StepInput"
    and "inp_title (app_inputs s) = [] \<or> inp_author (app_inputs s) = []"
  shows "fst (handleConfirm P s) = []
     \<and> snd (handleConfirm P s) = s\<lparr> app_errorMsg := validationMessage \<rparr>
     \<and> app_step (snd (handleConfirm P s)) = StepInput
     \<and> app_errorMsg (snd (handleConfirm P s)) \<noteq> []"
  using assms by (auto simp: handleConfirm_def validationMessage_def ascii_def)

text \<open>
  A title with no author.
\<close>

theorem C7_validation_witness:
  "fst (handleConfirm (tablePlatform (Inr (sampleResponse None)) [(ascii ''{}'', JObject [])])
          (sampleApp (ascii ''Ulysses'') [])) = []
   \<and> snd (handleConfirm (tablePlatform (Inr (sampleResponse None)) [(ascii ''{}'', JObject [])])
          (sampleApp (ascii ''Ulysses'') []))
       = (sampleApp (ascii ''Ulysses'') [])\<lparr> app_errorMsg := validationMessage \<rparr>
   \<and> app_step (snd (handleConfirm (tablePlatform (Inr (sampleResponse None)) [(ascii ''{}'', JObject [])])
          (sampleApp (ascii ''Ulysses'') []))) = StepInput
   \<and> app_errorMsg (snd (handleConfirm (tablePlatform (Inr (sampleResponse None)) [(ascii ''{}'', JObject [])])
          (sampleApp (ascii ''Ulysses'') []))) \<noteq> []"
  by (rule C7_validation) (simp_all add: sampleApp_def initialApp_def)

text \<open>
  \<^bold>\<open>C6\<close> as stated fails in one part: the retry does not clear the error message.
  After a failed submission and \<^emph>\<open>Try Again\<close> the message is still the failure message.
\<close>

theorem C6_counterexample:
  "app_step (snd (handleConfirm (tablePlatform (Inl (ErrorObject (ascii ''fetch failed''))) [])
       (initialApp\<lparr> app_inputs := \<lparr> inp_title = ascii ''Ulysses'', inp_author = ascii ''James Joyce'' \<rparr> \<rparr>)))
     = StepError
   \<and> app_errorMsg (tryAgain (snd (handleConfirm (tablePlatform (Inl (ErrorObject (ascii ''fetch failed''))) [])
       (initialApp\<lparr> app_inputs := \<lparr> inp_title = ascii ''Ulysses'', inp_author = ascii ''James Joyce'' \<rparr> \<rparr>))))
     = failureMessage
   \<and> failureMessage \<noteq> []"
  by (simp add: handleConfirm_def handleConfirmPending_def generateBookInfographic_def tablePlatform_def
      initialApp_def tryAgain_def messageOf_def Let_def failureMessage_def ascii_def)

text \<open>
  \<^bold>\<open>C6, amended.\<close> The retry sets the view state to \<open>input\<close> and changes nothing else:
  the error message, the title and author typed before, and the stored document stay as
  they were.
\<close>

theorem C6_try_again_frame:
  "app_step (tryAgain s) = StepInput \<and> app_errorMsg (tryAgain s) = app_errorMsg s
   \<and> app_inputs (tryAgain s) = app_inputs s \<and> app_data (tryAgain s) = app_data s"
  by (simp add: tryAgain_def)

section \<open>The name of the exported file\<close>

lemma concat_specRuns: "concat (specRuns s) = s"
  by (induction s) (auto split: list.splits)

lemma specMaximalRuns_specRuns: "specMaximalRuns (specRuns s)"
proof (induction s)
  case Nil
  then show ?case by simp
next
  case (Cons x xs)
  show ?case
  proof (cases "specRuns xs")
    case Nil
    then show ?thesis by (simp add: specUniformRun_def)
  next
    case (Cons r rs)
    then have m: "specMaximalRuns (r # rs)" using Cons.IH by simp
    have u: "specUniformRun r" using m by (cases rs) simp_all
    show ?thesis
    proof (cases "isWhiteSpace x = isWhiteSpace (hd r)")
      case True
      have "specUniformRun (x # r)"
        using u True by (auto simp: specUniformRun_def)
      then have "specMaximalRuns ((x # r) # rs)"
        using m True by (cases rs) simp_all
      then show ?thesis using Cons True by simp
    next
      case False
      have "specUniformRun [x]" by (simp add: specUniformRun_def)
      moreover have "r \<noteq> []" using u by (simp add: specUniformRun_def)
      ultimately have "specMaximalRuns ([x] # r # rs)"
        using m False by simp
      then show ?thesis using Cons False by simp
    qed
  qed
qed

text \<open>The division \<open>specRuns\<close> computes is the only one into maximal runs.\<close>

lemma specRuns_cons_run:
  assumes "r \<noteq> []" and "list_all (\<lambda>c. isWhiteSpace c = b) r"
    and "segs = [] \<or> isWhiteSpace (hd (hd segs)) \<noteq> b"
    and "specRuns s = segs"
  shows "specRuns (r @ s) = r # segs"
  using assms(1,2)
proof (induction r rule: list_nonempty_induct)
  case (single x)
  then show ?case using assms(3,4) by (auto split: list.splits)
next
  case (cons x r)
  then show ?case by (cases r) auto
qed

lemma specRuns_unique: "specMaximalRuns segs \<Longrightarrow> specRuns (concat segs) = segs"
proof (induction segs rule: specMaximalRuns.induct)
  case 1
  then show ?case by simp
next
  case (2 r)
  then have "specRuns (r @ []) = [r]"
    by (intro specRuns_cons_run [where b = "isWhiteSpace (hd r)"]) (auto simp: specUniformRun_def)
  then show ?case by simp
next
  case (3 r r' rs)
  then have "specRuns (r @ concat (r' # rs)) = r # r' # rs"
    by (intro specRuns_cons_run [where b = "isWhiteSpace (hd r)"]) (auto simp: specUniformRun_def)
  then show ?case by simp
qed

lemma dropWhile_uniform_ws:
  assumes "list_all isWhiteSpace r" and "rest = [] \<or> \<not> isWhiteSpace (hd rest)"
  shows "dropWhile isWhiteSpace (r @ rest) = rest"
proof -
  have "dropWhile isWhiteSpace (r @ rest) = dropWhile isWhiteSpace rest"
    using assms(1) by (simp add: list_all_iff dropWhile_append2)
  also have "\<dots> = rest"
    using assms(2) by (cases rest) auto
  finally show ?thesis .
qed

lemma replace_nonws_run:
  "list_all (\<lambda>c. \<not> isWhiteSpace c) r \<Longrightarrow> replaceWhiteSpaceRuns (r @ rest) = r @ replaceWhiteSpaceRuns rest"
  by (induction r) auto

lemma replace_ws_run:
  assumes "r \<noteq> []" and "list_all isWhiteSpace r" and "rest = [] \<or> \<not> isWhiteSpace (hd rest)"
  shows "replaceWhiteSpaceRuns (r @ rest) = ascii ''_'' @ replaceWhiteSpaceRuns rest"
proof -
  obtain x r' where r: "r = x # r'" using assms(1) by (cases r) auto
  then have "isWhiteSpace x" and "list_all isWhiteSpace r'" using assms(2) by auto
  then show ?thesis
    using dropWhile_uniform_ws [of r' rest] assms(3) r by simp
qed

lemma hd_concat_runs:
  "specMaximalRuns (r # rs) \<Longrightarrow> hd (concat (r # rs)) = hd r"
  by (cases rs) (auto simp: specUniformRun_def)

lemma specUnderscoreRun_ws: "isWhiteSpace (hd r) \<Longrightarrow> specUnderscoreRun r = ascii ''_''"
  by (simp add: specUnderscoreRun_def)

lemma specUnderscoreRun_other: "\<not> isWhiteSpace (hd r) \<Longrightarrow> specUnderscoreRun r = r"
  by (simp add: specUnderscoreRun_def)

lemma replace_specMaximalRuns:
  "specMaximalRuns segs \<Longrightarrow> replaceWhiteSpaceRuns (concat segs) = concat (map specUnderscoreRun segs)"
proof (induction segs rule: specMaximalRuns.induct)
  case 1
  then show ?case by simp
next
  case (2 r)
  then have u: "specUniformRun r" by simp
  show ?case
  proof (cases "isWhiteSpace (hd r)")
    case True
    then have "list_all isWhiteSpace r" using u by (auto simp: specUniformRun_def list_all_iff)
    then have "replaceWhiteSpaceRuns (r @ []) = ascii ''_'' @ replaceWhiteSpaceRuns []"
      using u by (intro replace_ws_run) (auto simp: specUniformRun_def)
    then show ?thesis using True by (simp add: specUnderscoreRun_ws)
  next
    case False
    then have "list_all (\<lambda>c. \<not> isWhiteSpace c) r" using u by (auto simp: specUniformRun_def list_all_iff)
    then have "replaceWhiteSpaceRuns (r @ []) = r @ replaceWhiteSpaceRuns []"
      by (rule replace_nonws_run)
    then show ?thesis using False by (simp add: specUnderscoreRun_other)
  qed
next
  case (3 r r' rs)
  then have u: "specUniformRun r" and n: "r' \<noteq> []"
    and d: "isWhiteSpace (hd r) \<noteq> isWhiteSpace (hd r')" and m: "specMaximalRuns (r' # rs)"
    by simp_all
  have IH: "replaceWhiteSpaceRuns (concat (r' # rs)) = concat (map specUnderscoreRun (r' # rs))"
    using 3 by simp
  have h: "hd (concat (r' # rs)) = hd r'" using m by (rule hd_concat_runs)
  show ?case
  proof (cases "isWhiteSpace (hd r)")
    case True
    then have "list_all isWhiteSpace r" using u by (auto simp: specUniformRun_def list_all_iff)
    moreover have "\<not> isWhiteSpace (hd (concat (r' # rs)))" using True d h by simp
    ultimately have "replaceWhiteSpaceRuns (r @ concat (r' # rs))
        = ascii ''_'' @ replaceWhiteSpaceRuns (concat (r' # rs))"
      using u by (intro replace_ws_run) (auto simp: specUniformRun_def)
    then show ?thesis using True IH by (simp add: specUnderscoreRun_ws)
  next
    case False
    then have "list_all (\<lambda>c. \<not> isWhiteSpace c) r" using u by (auto simp: specUniformRun_def list_all_iff)
    then have "replaceWhiteSpaceRuns (r @ concat (r' # rs)) = r @ replaceWhiteSpaceRuns (concat (r' # rs))"
      by (rule replace_nonws_run)
    then show ?thesis using False IH by (simp add: specUnderscoreRun_other)
  qed
qed

lemma saved_name:
  assumes "handleDownloadPdf P capture container data = Saved name pages"
  shows "\<exists>t. getProperty data titleKey = Some (JString t) \<and> name = replaceWhiteSpaceRuns t @ pdfSuffix"
  using assms
  by (auto simp: handleDownloadPdf_def pdfFileName_def split: option.splits sum.splits jsvalue.splits)

text \<open>
  \<^bold>\<open>C8.\<close> Whenever the export saves a file, the document's title is a string \<open>t\<close>, and
  the file's name is \<open>t\<close> with each of its maximal runs of white space replaced by one
  underscore and the other runs kept, followed by \<^verbatim>\<open>_Presentation.pdf\<close>.
\<close>

theorem C8_file_name:
  assumes "handleDownloadPdf P capture container data = Saved name pages"
  shows "\<exists>t. getProperty data titleKey = Some (JString t)
     \<and> concat (specRuns t) = t \<and> specMaximalRuns (specRuns t)
     \<and> name = concat (map specUnderscoreRun (specRuns t)) @ pdfSuffix"
proof -
  obtain t where t: "getProperty data titleKey = Some (JString t)"
    and n: "name = replaceWhiteSpaceRuns t @ pdfSuffix"
    using saved_name [OF assms] by blast
  have "replaceWhiteSpaceRuns (concat (specRuns t)) = concat (map specUnderscoreRun (specRuns t))"
    using specMaximalRuns_specRuns by (rule replace_specMaximalRuns)
  then have "name = concat (map specUnderscoreRun (specRuns t)) @ pdfSuffix"
    using n by (simp add: concat_specRuns)
  then show ?thesis
    using t by (auto simp: concat_specRuns specMaximalRuns_specRuns)
qed

text \<open>
  A title with a run of two spaces and a run of a line break and a space.
\<close>

theorem C8_file_name_witness:
  "\<exists>t. getProperty (JObject [(ascii ''title'', JString (ascii ''The  Great\<newline> Gatsby''))]) titleKey
        = Some (JString t)
     \<and> concat (specRuns t) = t \<and> specMaximalRuns (specRuns t)
     \<and> ascii ''The_Great_Gatsby_Presentation.pdf'' = concat (map specUnderscoreRun (specRuns t)) @ pdfSuffix"
proof -
  let ?P = "tablePlatform (Inr (sampleResponse None)) []"
  have "handleDownloadPdf ?P (\<lambda>slide::nat. Inr slide) (Some [0, 1])
        (JObject [(ascii ''title'', JString (ascii ''The  Great\<newline> Gatsby''))])
      = Saved (ascii ''The_Great_Gatsby_Presentation.pdf'') [0, 1]"
    by (simp add: handleDownloadPdf_def pdfFileName_def titleKey_def pdfSuffix_def isWhiteSpace_def
        ascii_def)
  then show ?thesis by (rule C8_file_name)
qed

section \<open>The prompt\<close>

lemmas promptTail_chunks = promptTail_0_def promptTail_1_def promptTail_2_def promptTail_3_def
  promptTail_4_def promptTail_5_def promptTail_6_def

text \<open>\<open>occurrences\<close> counts the indices at which the pattern starts.\<close>

lemma upt_Suc_shift: "[0..<Suc (Suc n)] = 0 # map Suc [0..<Suc n]"
proof -
  have "[0..<Suc (Suc n)] = 0 # [Suc 0..<Suc (Suc n)]"
    by (rule upt_conv_Cons) simp
  moreover have "map Suc [0..<Suc n] = [Suc 0..<Suc (Suc n)]"
    by (rule map_Suc_upt)
  ultimately show ?thesis by (simp only:)
qed

lemma occurrences_positions:
  "occurrences pat s = length (filter (\<lambda>i. prefix pat (drop i s)) [0..<Suc (length s)])"
proof (induction s)
  case Nil
  then show ?case by simp
next
  case (Cons x xs)
  have "length (filter (\<lambda>i. prefix pat (drop i (x # xs))) (0 # map Suc [0..<Suc (length xs)]))
      = (if prefix pat (x # xs) then 1 else 0)
        + length (filter (\<lambda>i. prefix pat (drop i xs)) [0..<Suc (length xs)])"
    by (simp add: filter_map comp_def del: upt_Suc)
  moreover have "[0..<Suc (length (x # xs))] = 0 # map Suc [0..<Suc (length xs)]"
    using upt_Suc_shift [of "length xs"] by (simp del: upt_Suc)
  ultimately show ?case using Cons
    by (simp only: occurrences.simps)
qed

lemma occurrences_append_ge: "occurrences p ys \<le> occurrences p (xs @ ys)"
  by (induction xs) auto

lemma occurrences_self: "p \<noteq> [] \<Longrightarrow> occurrences p (p @ ys) = 1 + occurrences p (tl p @ ys)"
  by (cases p) auto

lemma occurrences_embedded:
  assumes "p \<noteq> []"
  shows "1 \<le> occurrences p (a @ p @ b)"
proof -
  have "1 \<le> occurrences p (p @ b)"
    using assms by (simp add: occurrences_self)
  also have "\<dots> \<le> occurrences p (a @ p @ b)"
    by (rule occurrences_append_ge)
  finally show ?thesis .
qed

lemma occurrences_zero: "c \<in> set p \<Longrightarrow> c \<notin> set s \<Longrightarrow> occurrences p s = 0"
proof (induction s)
  case Nil
  then show ?case by auto
next
  case (Cons x xs)
  have "\<not> prefix p (x # xs)"
    using Cons.prems set_mono_prefix [of p "x # xs"] by blast
  then show ?case using Cons by simp
qed

lemma takeWhile_neq_append:
  "c \<notin> set a \<Longrightarrow> takeWhile (\<lambda>x. x \<noteq> c) (a @ s) = a @ takeWhile (\<lambda>x. x \<noteq> c) s"
  by (induction a) auto

lemma takeWhile_neq_in:
  "c \<in> set p \<Longrightarrow> takeWhile (\<lambda>x. x \<noteq> c) (p @ s) = takeWhile (\<lambda>x. x \<noteq> c) p"
  by (induction p) auto

lemma no_early:
  assumes "c \<in> set p" and "c \<notin> set a" and "a \<noteq> []"
  shows "\<not> prefix p (a @ p @ b)"
proof
  assume "prefix p (a @ p @ b)"
  then obtain z where z: "a @ p @ b = p @ z" by (auto simp: prefix_def)
  have "takeWhile (\<lambda>x. x \<noteq> c) (a @ p @ b) = a @ takeWhile (\<lambda>x. x \<noteq> c) p"
    using assms(1,2) by (simp add: takeWhile_neq_append takeWhile_neq_in)
  moreover have "takeWhile (\<lambda>x. x \<noteq> c) (p @ z) = takeWhile (\<lambda>x. x \<noteq> c) p"
    using assms(1) by (rule takeWhile_neq_in)
  ultimately have "a @ takeWhile (\<lambda>x. x \<noteq> c) p = takeWhile (\<lambda>x. x \<noteq> c) p"
    using z by simp
  then show False using assms(3) by simp
qed

lemma occurrences_skip:
  "c \<in> set p \<Longrightarrow> c \<notin> set a \<Longrightarrow> occurrences p (a @ p @ b) = occurrences p (p @ b)"
proof (induction a)
  case Nil
  then show ?case by simp
next
  case (Cons x a)
  have "\<not> prefix p ((x # a) @ p @ b)"
    using Cons.prems by (intro no_early) auto
  then show ?case using Cons by simp
qed

lemma no_late:
  assumes "c \<in> set (u @ q)" and "c \<notin> set b" and "u \<noteq> []"
  shows "\<not> prefix (u @ q) (q @ b)"
proof
  assume "prefix (u @ q) (q @ b)"
  then obtain z where z: "q @ b = (u @ q) @ z" by (auto simp: prefix_def)
  define b' where "b' = take (length u) b"
  have "length (q @ b) = length ((u @ q) @ z)" using z by simp
  then have len: "length b' = length u" by (simp add: b'_def)
  have "take (length (u @ q)) ((u @ q) @ z) = u @ q" by simp
  then have "take (length (u @ q)) (q @ b) = u @ q" using z by simp
  then have eq: "q @ b' = u @ q" by (simp add: b'_def)
  have cb: "c \<notin> set b'"
    using assms(2) by (auto simp: b'_def dest: in_set_takeD)
  have "c \<in> set (q @ b')" using assms(1) eq by simp
  then have cq: "c \<in> set (rev q)" using cb by simp
  have "rev (q @ b') = rev (u @ q)" using eq by simp
  then have r: "rev b' @ rev q = rev q @ rev u" by simp
  have "takeWhile (\<lambda>x. x \<noteq> c) (rev q @ rev u) = takeWhile (\<lambda>x. x \<noteq> c) (rev q)"
    using cq by (rule takeWhile_neq_in)
  moreover have "takeWhile (\<lambda>x. x \<noteq> c) (rev b' @ rev q) = rev b' @ takeWhile (\<lambda>x. x \<noteq> c) (rev q)"
    using cb by (simp add: takeWhile_neq_append)
  ultimately have "rev b' @ takeWhile (\<lambda>x. x \<noteq> c) (rev q) = takeWhile (\<lambda>x. x \<noteq> c) (rev q)"
    using r by simp
  then have "b' = []" by simp
  then show False using len assms(3) by simp
qed

lemma occurrences_tail_zero:
  "c \<in> set (u @ q) \<Longrightarrow> c \<notin> set b \<Longrightarrow> u \<noteq> [] \<Longrightarrow> occurrences (u @ q) (q @ b) = 0"
proof (induction q arbitrary: u)
  case Nil
  then show ?case using occurrences_zero [of c u b] by simp
next
  case (Cons y q)
  have "\<not> prefix (u @ y # q) ((y # q) @ b)"
    using Cons.prems by (intro no_late) auto
  moreover have "occurrences ((u @ [y]) @ q) (q @ b) = 0"
    using Cons.prems by (intro Cons.IH) auto
  ultimately show ?case by simp
qed

lemma occurrences_once:
  assumes "c \<in> set p" and "c \<notin> set a" and "c \<notin> set b"
  shows "occurrences p (a @ p @ b) = 1"
proof -
  obtain x p' where p: "p = [x] @ p'" using assms(1) by (cases p) auto
  have "occurrences ([x] @ p') (p' @ b) = 0"
    using assms(1,3) p by (intro occurrences_tail_zero) auto
  then have "occurrences p (p @ b) = 1"
    using p by simp
  then show ?thesis
    using assms(1,2) by (simp add: occurrences_skip)
qed

lemma occursIn_occurrences:
  "p \<noteq> [] \<Longrightarrow> occursIn p s \<Longrightarrow> 1 \<le> occurrences p (s @ b)"
proof (induction s)
  case Nil
  then show ?case by simp
next
  case (Cons x s)
  show ?case
  proof (cases "prefix p (x # s)")
    case True
    then have "prefix p ((x # s) @ b)" by (rule prefix_prefix)
    then show ?thesis by simp
  next
    case False
    then have "1 \<le> occurrences p (s @ b)" using Cons by simp
    then show ?thesis by simp
  qed
qed

lemma slot_content: "take (length m) (drop (length h) (h @ m @ t)) = m"
  by simp

lemma War_in_template: "occursIn (ascii ''War'') promptTail_1"
  by (simp add: promptTail_1_def ascii_def)

lemma Z_not_in_template: "(0x5A :: 16 word) \<notin> set (promptHead @ promptMid @ promptTail)"
  by (simp add: promptHead_def promptHead_0_def promptMid_def promptMid_0_def promptTail_def
      promptTail_chunks ascii_def)

lemma K_not_in_template: "(0x4B :: 16 word) \<notin> set (promptHead @ promptMid @ promptTail)"
  by (simp add: promptHead_def promptHead_0_def promptMid_def promptMid_0_def promptTail_def
      promptTail_chunks ascii_def)

text \<open>
  \<^bold>\<open>C5\<close> as stated fails. The template quotes \<^verbatim>\<open>"War"\<close> as a word to avoid, so the
  title of Sebastian Junger's \<^emph>\<open>War\<close> occurs in its prompt at least twice.
\<close>

theorem C5_counterexample:
  "ascii ''War'' \<noteq> [] \<and> ascii ''Sebastian Junger'' \<noteq> []
   \<and> 2 \<le> occurrences (ascii ''War'') (buildPrompt (ascii ''War'') (ascii ''Sebastian Junger''))"
proof -
  let ?p = "ascii ''War''" and ?a = "ascii ''Sebastian Junger''"
  let ?rest = "promptTail_2 @ promptTail_3 @ promptTail_4 @ promptTail_5 @ promptTail_6"
  have n: "?p \<noteq> []" by (simp add: ascii_def)
  have "1 \<le> occurrences ?p (promptTail_1 @ ?rest)"
    using n War_in_template by (rule occursIn_occurrences)
  also have "\<dots> \<le> occurrences ?p ((tl ?p @ promptMid @ ?a @ promptTail_0) @ promptTail_1 @ ?rest)"
    by (rule occurrences_append_ge)
  finally have "2 \<le> occurrences ?p (?p @ promptMid @ ?a @ promptTail_0 @ promptTail_1 @ ?rest)"
    using n by (simp add: occurrences_self)
  also have "\<dots> \<le> occurrences ?p (promptHead @ ?p @ promptMid @ ?a @ promptTail_0 @ promptTail_1 @ ?rest)"
    by (rule occurrences_append_ge)
  finally have "2 \<le> occurrences ?p (buildPrompt ?p ?a)"
    by (simp add: buildPrompt_def promptTail_def)
  then show ?thesis by (simp add: ascii_def)
qed

text \<open>
  \<^bold>\<open>C5, amended.\<close> For a non-empty title and author, the prompt holds the title
  verbatim right after the head of the template and the author verbatim right after the
  title and the middle of the template, so each occurs in the prompt at least once. It
  occurs exactly once if it holds a code unit that is neither in the template nor in the
  other input.
\<close>

theorem C5_prompt_slots:
  assumes "title \<noteq> []" and "author \<noteq> []"
  shows "take (length title) (drop (length promptHead) (buildPrompt title author)) = title
     \<and> take (length author) (drop (length promptHead + length title + length promptMid)
          (buildPrompt title author)) = author
     \<and> 1 \<le> occurrences title (buildPrompt title author)
     \<and> 1 \<le> occurrences author (buildPrompt title author)
     \<and> ((\<exists>c \<in> set title. c \<notin> set (promptHead @ promptMid @ promptTail) \<and> c \<notin> set author)
          \<longrightarrow> occurrences title (buildPrompt title author) = 1)
     \<and> ((\<exists>c \<in> set author. c \<notin> set (promptHead @ promptMid @ promptTail) \<and> c \<notin> set title)
          \<longrightarrow> occurrences author (buildPrompt title author) = 1)"
proof -
  have 1: "take (length title) (drop (length promptHead) (buildPrompt title author)) = title"
    by (simp add: buildPrompt_def)
  have "length promptHead + length title + length promptMid = length (promptHead @ title @ promptMid)"
    by simp
  moreover have "buildPrompt title author = (promptHead @ title @ promptMid) @ author @ promptTail"
    by (simp add: buildPrompt_def)
  ultimately have 2: "take (length author) (drop (length promptHead + length title + length promptMid)
      (buildPrompt title author)) = author"
    by (simp only: slot_content)
  have 3: "1 \<le> occurrences title (buildPrompt title author)"
    unfolding buildPrompt_def using assms(1) by (rule occurrences_embedded)
  have "1 \<le> occurrences author ((promptHead @ title @ promptMid) @ author @ promptTail)"
    using assms(2) by (rule occurrences_embedded)
  then have 4: "1 \<le> occurrences author (buildPrompt title author)"
    by (simp add: buildPrompt_def)
  have 5: "occurrences title (buildPrompt title author) = 1"
    if "c \<in> set title" and "c \<notin> set (promptHead @ promptMid @ promptTail)" and "c \<notin> set author" for c
  proof -
    have "occurrences title (promptHead @ title @ (promptMid @ author @ promptTail)) = 1"
      using that by (intro occurrences_once [of c]) auto
    then show ?thesis by (simp add: buildPrompt_def)
  qed
  have 6: "occurrences author (buildPrompt title author) = 1"
    if "c \<in> set author" and "c \<notin> set (promptHead @ promptMid @ promptTail)" and "c \<notin> set title" for c
  proof -
    have "occurrences author ((promptHead @ title @ promptMid) @ author @ promptTail) = 1"
      using that by (intro occurrences_once [of c]) auto
    then show ?thesis by (simp add: buildPrompt_def)
  qed
  show ?thesis using 1 2 3 4 5 6 by blast
qed

text \<open>
  \<open>Z\<close> is in the title alone, \<open>K\<close> in the author alone.
\<close>

theorem C5_prompt_slots_witness:
  "occurrences (ascii ''Zorba the Greek'')
      (buildPrompt (ascii ''Zorba the Greek'') (ascii ''Nikos Kazantzakis'')) = 1
   \<and> occurrences (ascii ''Nikos Kazantzakis'')
      (buildPrompt (ascii ''Zorba the Greek'') (ascii ''Nikos Kazantzakis'')) = 1"
proof -
  let ?t = "ascii ''Zorba the Greek''" and ?a = "ascii ''Nikos Kazantzakis''"
  have t: "?t \<noteq> []" and a: "?a \<noteq> []" by (simp_all add: ascii_def)
  have z: "\<exists>c \<in> set ?t. c \<notin> set (promptHead @ promptMid @ promptTail) \<and> c \<notin> set ?a"
  proof (intro bexI conjI)
    show "(0x5A :: 16 word) \<notin> set (promptHead @ promptMid @ promptTail)"
      by (rule Z_not_in_template)
    show "(0x5A :: 16 word) \<notin> set ?a" by (simp add: ascii_def)
    show "(0x5A :: 16 word) \<in> set ?t" by (simp add: ascii_def)
  qed
  have k: "\<exists>c \<in> set ?a. c \<notin> set (promptHead @ promptMid @ promptTail) \<and> c \<notin> set ?t"
  proof (intro bexI conjI)
    show "(0x4B :: 16 word) \<notin> set (promptHead @ promptMid @ promptTail)"
      by (rule K_not_in_template)
    show "(0x4B :: 16 word) \<notin> set ?t" by (simp add: ascii_def)
    show "(0x4B :: 16 word) \<in> set ?a" by (simp add: ascii_def)
  qed
  show ?thesis using C5_prompt_slots [OF t a] z k by blast
qed

end
